theory Spec2Isabelle
  imports Main "HOL-Library.Word"
begin

unbundle bit_operations_syntax

section \<open>The MD5 primitive of \<open>hashlib\<close>\<close>

text \<open>
  \<open>core.py\<close> hashes with \<open>hashlib.md5\<close>. The library is not part of the repository;
  it is modelled here after RFC 1321 (little-endian words, 64 rounds per 64-byte block)
  so that digests of concrete files can be computed inside the logic. The general
  theorems below never unfold \<open>md5\<close>; only the evaluations at concrete inputs do.
\<close>

type_synonym byte = "8 word"
type_synonym bytes = "byte list"
type_synonym u32 = "32 word"

definition md5_K :: "u32 list" where
  "md5_K = [
    0xd76aa478, 0xe8c7b756, 0x242070db, 0xc1bdceee, 0xf57c0faf, 0x4787c62a, 0xa8304613, 0xfd469501,
    0x698098d8, 0x8b44f7af, 0xffff5bb1, 0x895cd7be, 0x6b901122, 0xfd987193, 0xa679438e, 0x49b40821,
    0xf61e2562, 0xc040b340, 0x265e5a51, 0xe9b6c7aa, 0xd62f105d, 0x02441453, 0xd8a1e681, 0xe7d3fbc8,
    0x21e1cde6, 0xc33707d6, 0xf4d50d87, 0x455a14ed, 0xa9e3e905, 0xfcefa3f8, 0x676f02d9, 0x8d2a4c8a,
    0xfffa3942, 0x8771f681, 0x6d9d6122, 0xfde5380c, 0xa4beea44, 0x4bdecfa9, 0xf6bb4b60, 0xbebfbc70,
    0x289b7ec6, 0xeaa127fa, 0xd4ef3085, 0x04881d05, 0xd9d4d039, 0xe6db99e5, 0x1fa27cf8, 0xc4ac5665,
    0xf4292244, 0x432aff97, 0xab9423a7, 0xfc93a039, 0x655b59c3, 0x8f0ccc92, 0xffeff47d, 0x85845dd1,
    0x6fa87e4f, 0xfe2ce6e0, 0xa3014314, 0x4e0811a1, 0xf7537e82, 0xbd3af235, 0x2ad7d2bb, 0xeb86d391]"

definition md5_S :: "nat list" where
  "md5_S = [7, 12, 17, 22, 7, 12, 17, 22, 7, 12, 17, 22, 7, 12, 17, 22,
            5, 9, 14, 20, 5, 9, 14, 20, 5, 9, 14, 20, 5, 9, 14, 20,
            4, 11, 16, 23, 4, 11, 16, 23, 4, 11, 16, 23, 4, 11, 16, 23,
            6, 10, 15, 21, 6, 10, 15, 21, 6, 10, 15, 21, 6, 10, 15, 21]"

definition rotl32 :: "u32 \<Rightarrow> nat \<Rightarrow> u32" where
  "rotl32 x c = push_bit c x OR drop_bit (32 - c) x"

fun le_word :: "bytes \<Rightarrow> u32" where
  "le_word [] = 0"
| "le_word (b # bs) = ucast b OR push_bit 8 (le_word bs)"

definition le_bytes4 :: "u32 \<Rightarrow> bytes" where
  "le_bytes4 v = [ucast v, ucast (drop_bit 8 v), ucast (drop_bit 16 v), ucast (drop_bit 24 v)]"

definition le_bytes8 :: "64 word \<Rightarrow> bytes" where
  "le_bytes8 v =
     [ucast v, ucast (drop_bit 8 v), ucast (drop_bit 16 v), ucast (drop_bit 24 v),
      ucast (drop_bit 32 v), ucast (drop_bit 40 v), ucast (drop_bit 48 v), ucast (drop_bit 56 v)]"

text \<open>Padding: a 1 bit, zeros up to 56 modulo 64, then the bit length in 64 bits.\<close>

definition md5_pad :: "bytes \<Rightarrow> bytes" where
  "md5_pad msg =
     msg @ [0x80] @ replicate ((119 - length msg mod 64) mod 64) 0
         @ le_bytes8 (of_nat (8 * length msg))"

function blocks_of :: "nat \<Rightarrow> 'a list \<Rightarrow> 'a list list" where
  "blocks_of n xs = (if n = 0 \<or> xs = [] then [] else take n xs # blocks_of n (drop n xs))"
  by pat_completeness auto
termination
  by (relation "measure (\<lambda>(n, xs). length xs)") auto

declare blocks_of.simps [simp del]

definition md5_F :: "nat \<Rightarrow> u32 \<Rightarrow> u32 \<Rightarrow> u32 \<Rightarrow> u32" where
  "md5_F i b c d =
     (if i < 16 then (b AND c) OR (NOT b AND d)
      else if i < 32 then (d AND b) OR (NOT d AND c)
      else if i < 48 then b XOR c XOR d
      else c XOR (b OR NOT d))"

definition md5_g :: "nat \<Rightarrow> nat" where
  "md5_g i =
     (if i < 16 then i
      else if i < 32 then (5 * i + 1) mod 16
      else if i < 48 then (3 * i + 5) mod 16
      else (7 * i) mod 16)"

type_synonym md5_state = "u32 \<times> u32 \<times> u32 \<times> u32"

fun md5_step :: "u32 list \<Rightarrow> md5_state \<Rightarrow> nat \<Rightarrow> md5_state" where
  "md5_step m (a, b, c, d) i =
     (let f = md5_F i b c d + a + md5_K ! i + m ! md5_g i
      in (d, b + rotl32 f (md5_S ! i), b, c))"

text \<open>\<open>n\<close> rounds in a row, starting with round \<open>i\<close>.\<close>

fun md5_rounds :: "u32 list \<Rightarrow> nat \<Rightarrow> nat \<Rightarrow> md5_state \<Rightarrow> md5_state" where
  "md5_rounds m i 0 st = st"
| "md5_rounds m i (Suc n) st = md5_rounds m (i + 1) n (md5_step m st i)"

fun md5_block :: "md5_state \<Rightarrow> bytes \<Rightarrow> md5_state" where
  "md5_block (a0, b0, c0, d0) blk =
     (case md5_rounds (map le_word (blocks_of 4 blk)) 0 64 (a0, b0, c0, d0) of
        (a, b, c, d) \<Rightarrow> (a0 + a, b0 + b, c0 + c, d0 + d))"

text \<open>\<open>hashlib.md5(data).digest()\<close>: the 16 raw bytes.\<close>

definition md5 :: "bytes \<Rightarrow> bytes" where
  "md5 msg =
     (case foldl md5_block (0x67452301, 0xefcdab89, 0x98badcfe, 0x10325476)
             (blocks_of 64 (md5_pad msg)) of
        (a, b, c, d) \<Rightarrow> le_bytes4 a @ le_bytes4 b @ le_bytes4 c @ le_bytes4 d)"

definition hex_digit :: "nat \<Rightarrow> char" where
  "hex_digit n = ''0123456789abcdef'' ! n"

text \<open>Lowercase hexadecimal, two characters per byte, as \<open>hexdigest()\<close> prints.\<close>

definition hex :: "bytes \<Rightarrow> string" where
  "hex bs = concat (map (\<lambda>b. [hex_digit (unat b div 16), hex_digit (unat b mod 16)]) bs)"

text \<open>
  A \<open>hashlib\<close> hash object is the bytes fed to it so far: \<open>update\<close> appends,
  \<open>digest\<close> and \<open>hexdigest\<close> hash what was fed.
\<close>

definition md5_new :: "bytes" where
  "md5_new = []"

definition md5_update :: "bytes \<Rightarrow> bytes \<Rightarrow> bytes" where
  "md5_update m data = m @ data"

definition hexdigest :: "bytes \<Rightarrow> string" where
  "hexdigest m = hex (md5 m)"

section \<open>Python values used by \<open>core.py\<close>\<close>

text \<open>
  Python strings are modelled as \<open>string\<close>, file contents as lists of bytes, Python
  integers as \<open>int\<close>. The exceptions that can leave the functions of \<open>core.py\<close>:
  \<open>UnboundLocalError\<close> is Python's \<open>NameError\<close> for a local variable, \<open>AxisError\<close>
  is numpy's (a \<open>ValueError\<close>), \<open>RegexError\<close> is \<open>re.error\<close>, \<open>ClientError\<close> stands
  for a failure reported by the storage service.
\<close>

datatype py_error =
    IOError
  | UnboundLocalError
  | ValueError
  | AxisError
  | OverflowError
  | AssertionError
  | AttributeError
  | RegexError
  | ClientError

text \<open>
  What a call does to the outside, in order: lines written by \<open>print\<close>, files opened,
  and requests to the storage service (listing a bucket under a prefix, reading one
  object's metadata).
\<close>

datatype event =
    Print string
  | OpenFile string
  | S3List string string
  | S3Head string string

type_synonym 'a io = "event list \<times> (py_error + 'a)"

definition io_return :: "'a \<Rightarrow> 'a io" where
  "io_return x = ([], Inr x)"

definition io_bind :: "'a io \<Rightarrow> ('a \<Rightarrow> 'b io) \<Rightarrow> 'b io" where
  "io_bind m f =
     (case m of
        (t, Inl e) \<Rightarrow> (t, Inl e)
      | (t, Inr x) \<Rightarrow> (case f x of (t', r) \<Rightarrow> (t @ t', r)))"

text \<open>
  A Python byte string holds fewer than \<open>2 ^ 63 - 33\<close> bytes (64-bit CPython): asking a
  file for that many bytes or more raises \<open>OverflowError\<close>, whatever the file holds.
\<close>

definition bytes_limit :: nat where
  "bytes_limit = 2 ^ 63 - 33"

text \<open>
  The content of a file is what \<open>f.read()\<close> returns of it, a byte string; no file is
  as long as the limit.
\<close>

typedef file_content = "{bs :: bytes. length bs < bytes_limit}"
  morphisms file_bytes Abs_file_content
  by (rule exI [of _ "[]"]) (simp add: bytes_limit_def)

text \<open>
  The world a run sees. Files: a path with no entry cannot be opened (missing,
  unreadable). The storage service and the regular-expression engine are external
  libraries (\<open>boto3\<close>, \<open>re\<close>) and are taken as parameters: a bucket's objects as
  (key, quoted ETag) pairs in listing order (\<open>None\<close>: the bucket cannot be listed),
  whether a pattern source compiles, and whether a compiled pattern is found in a string.
\<close>

record world =
  files :: "string \<Rightarrow> file_content option"
  s3_objects :: "string \<Rightarrow> (string \<times> string) list option"
  re_compiles :: "string \<Rightarrow> bool"
  re_search :: "string \<Rightarrow> string \<Rightarrow> bool"

text \<open>\<open>open(filename, "rb")\<close>: the content from position 0, or \<open>IOError\<close>.\<close>

definition open_rb :: "world \<Rightarrow> string \<Rightarrow> bytes io" where
  "open_rb w filename =
     (case files w filename of
        None \<Rightarrow> ([OpenFile filename], Inl IOError)
      | Some content \<Rightarrow> ([OpenFile filename], Inr (file_bytes content)))"

text \<open>
  \<open>f.read(n)\<close> on the bytes still unread. A size of \<open>-2\<close> or less is refused with
  \<open>ValueError\<close> (read length must be non-negative or -1), a size from the limit of
  byte strings up with \<open>OverflowError\<close>, both before anything is read. Otherwise the
  read returns everything that is left for \<open>n = -1\<close>, and at most \<open>n\<close> bytes for
  \<open>n \<ge> 0\<close> (none for \<open>n = 0\<close>). Whether the machine has the memory for the buffer of
  a large read (\<open>MemoryError\<close>) is not modelled.
\<close>

definition fread :: "int \<Rightarrow> bytes \<Rightarrow> py_error + bytes" where
  "fread n rest =
     (if n \<le> - 2 then Inl ValueError
      else if int bytes_limit \<le> n then Inl OverflowError
      else if n = - 1 then Inr rest
      else Inr (take (nat n) rest))"

text \<open>
  \<open>iter(lambda: f.read(n), b"")\<close>: the successive reads up to, and without, the first
  empty one; an exception of a read ends the iteration.
\<close>

function read_chunks :: "int \<Rightarrow> bytes \<Rightarrow> py_error + bytes list" where
  "read_chunks n rest =
     (case fread n rest of
        Inl err \<Rightarrow> Inl err
      | Inr data \<Rightarrow>
          if data = [] then Inr []
          else (case read_chunks n (drop (length data) rest) of
                  Inl err \<Rightarrow> Inl err
                | Inr chunks \<Rightarrow> Inr (data # chunks)))"
  by pat_completeness auto
termination
  by (relation "measure (\<lambda>(n, rest). length rest)") (auto simp: fread_def split: if_splits)

declare read_chunks.simps [simp del]

definition digit_char :: "nat \<Rightarrow> char" where
  "digit_char n = ''0123456789'' ! n"

text \<open>\<open>str\<close> of a non-negative integer, as \<open>"{}".format(len(md5s))\<close> prints it.\<close>

function str_nat :: "nat \<Rightarrow> string" where
  "str_nat n = (if n < 10 then [digit_char n] else str_nat (n div 10) @ [digit_char (n mod 10)])"
  by pat_completeness auto
termination
  by (relation "measure id") auto

declare str_nat.simps [simp del]

section \<open>\<open>md5_checksum\<close> and \<open>etag_checksum\<close>\<close>

definition md5_checksum :: "world \<Rightarrow> string \<Rightarrow> string io" where
  "md5_checksum w filename =
     io_bind (open_rb w filename) (\<lambda>content.
       io_bind ([], read_chunks (1024 * 1024) content) (\<lambda>chunks.
         io_return (hexdigest (foldl md5_update md5_new chunks))))"

definition default_chunk_size :: int where
  "default_chunk_size = 8 * 1024 ^ 2"

definition etag_checksum :: "world \<Rightarrow> string \<Rightarrow> int \<Rightarrow> string io" where
  "etag_checksum w filename chunk_size =
     io_bind (open_rb w filename) (\<lambda>content.
       io_bind ([], read_chunks chunk_size content) (\<lambda>chunks.
         let md5s = map md5 chunks;
             m = md5 (concat md5s)
         in io_return
              (if length md5s > 1 then hex m @ ''-'' @ str_nat (length md5s) else hex m)))"

section \<open>\<open>etag_compare\<close>\<close>

text \<open>\<open>etag.strip('"')\<close>: every leading and every trailing double quote is removed.\<close>

definition strip_quotes :: "string \<Rightarrow> string" where
  "strip_quotes s =
     rev (dropWhile (\<lambda>c. c = CHR 0x22) (rev (dropWhile (\<lambda>c. c = CHR 0x22) s)))"

text \<open>
  The local \<open>a\<close> is bound only in the two mode branches; with any other mode the
  comparison \<open>et == a\<close> reads an unbound local.
\<close>

definition etag_compare ::
  "world \<Rightarrow> string \<Rightarrow> string \<Rightarrow> string \<Rightarrow> int \<Rightarrow> (bool \<times> string \<times> string) io" where
  "etag_compare w filename etag mode chunk_size =
     (let et = strip_quotes etag
      in io_bind
           (if mode = ''etag'' then etag_checksum w filename chunk_size
            else if mode = ''md5'' then md5_checksum w filename
            else ([], Inl UnboundLocalError))
           (\<lambda>a. if et = a then io_return (True, a, et) else io_return (False, a, et)))"

section \<open>Remote objects\<close>

text \<open>
  The \<open>pattern\<close> argument as Python passes it around: \<open>None\<close>, a string, a list of
  strings, or a compiled pattern (kept as its source).
\<close>

datatype py_pattern = PNone | PStr string | PList "string list" | PCompiled string

fun pattern_truthy :: "py_pattern \<Rightarrow> bool" where
  "pattern_truthy PNone = False"
| "pattern_truthy (PStr s) = (s \<noteq> [])"
| "pattern_truthy (PList l) = (l \<noteq> [])"
| "pattern_truthy (PCompiled p) = True"

text \<open>The \<open>bucket\<close> and \<open>key\<close> arguments: \<open>None\<close>, one string, or a list of strings.\<close>

datatype str_or_list = NoArg | Str string | StrList "string list"

fun arg_truthy :: "str_or_list \<Rightarrow> bool" where
  "arg_truthy NoArg = False"
| "arg_truthy (Str s) = (s \<noteq> [])"
| "arg_truthy (StrList l) = (l \<noteq> [])"

fun arg_list :: "str_or_list \<Rightarrow> string list" where
  "arg_list NoArg = []"
| "arg_list (Str s) = [s]"
| "arg_list (StrList l) = l"

text \<open>\<open>sep.join(xs)\<close>.\<close>

fun join :: "string \<Rightarrow> string list \<Rightarrow> string" where
  "join sep [] = []"
| "join sep [x] = x"
| "join sep (x # y # ys) = x @ sep @ join sep (y # ys)"

fun is_prefix :: "string \<Rightarrow> string \<Rightarrow> bool" where
  "is_prefix [] s = True"
| "is_prefix (c # cs) [] = False"
| "is_prefix (c # cs) (d # ds) = (c = d \<and> is_prefix cs ds)"

text \<open>\<open>sub in s\<close> on strings.\<close>

fun contains :: "string \<Rightarrow> string \<Rightarrow> bool" where
  "contains sub [] = (sub = [])"
| "contains sub (c # cs) = (is_prefix sub (c # cs) \<or> contains sub cs)"

text \<open>
  One turn of the loop of \<open>get_objects\<close>: without a (truthy) pattern the key itself is
  the hit, so an empty key is dropped; otherwise \<open>pattern.search\<close> decides, and a
  pattern that is a plain string or a list has no \<open>search\<close>.
\<close>

definition object_hit :: "world \<Rightarrow> py_pattern \<Rightarrow> string \<Rightarrow> py_error + bool" where
  "object_hit w pattern k =
     (if \<not> pattern_truthy pattern then Inr (k \<noteq> [])
      else case pattern of
             PCompiled p \<Rightarrow> Inr (re_search w p k)
           | _ \<Rightarrow> Inl AttributeError)"

fun filter_hits :: "world \<Rightarrow> py_pattern \<Rightarrow> string list \<Rightarrow> py_error + string list" where
  "filter_hits w pattern [] = Inr []"
| "filter_hits w pattern (k # ks) =
     (case object_hit w pattern k of
        Inl e \<Rightarrow> Inl e
      | Inr hit \<Rightarrow>
          (case filter_hits w pattern ks of
             Inl e \<Rightarrow> Inl e
           | Inr r \<Rightarrow> Inr (if hit then k # r else r)))"

definition get_objects :: "world \<Rightarrow> string \<Rightarrow> string \<Rightarrow> py_pattern \<Rightarrow> string list io" where
  "get_objects w bucket key pattern =
     (case s3_objects w bucket of
        None \<Rightarrow> ([S3List bucket key], Inl ClientError)
      | Some objs \<Rightarrow>
          ([S3List bucket key],
           filter_hits w pattern (filter (is_prefix key) (map fst objs))))"

definition get_object_etag :: "world \<Rightarrow> string \<Rightarrow> string \<Rightarrow> (string \<times> string) io" where
  "get_object_etag w bucket key =
     ([S3Head bucket key],
      case s3_objects w bucket of
        None \<Rightarrow> Inl ClientError
      | Some objs \<Rightarrow>
          (case map_of objs key of
             None \<Rightarrow> Inl ClientError
           | Some e_tag \<Rightarrow> Inr (strip_quotes e_tag, key)))"

fun io_map :: "('a \<Rightarrow> 'b io) \<Rightarrow> 'a list \<Rightarrow> 'b list io" where
  "io_map f [] = io_return []"
| "io_map f (x # xs) =
     io_bind (f x) (\<lambda>y. io_bind (io_map f xs) (\<lambda>ys. io_return (y # ys)))"

text \<open>
  \<open>get_etags_from_s3uri\<close> returns the list of (ETag, key) pairs, or the empty string
  \<open>""\<close> when the list is empty: either way a sequence the caller iterates over.
\<close>

datatype etag_seq = EtagList "(string \<times> string) list" | EmptyStr

fun seq_items :: "etag_seq \<Rightarrow> (string \<times> string) list" where
  "seq_items (EtagList l) = l"
| "seq_items EmptyStr = []"

definition get_etags_from_s3uri ::
  "world \<Rightarrow> string \<Rightarrow> string \<Rightarrow> py_pattern \<Rightarrow> etag_seq io" where
  "get_etags_from_s3uri w bucket key pattern =
     io_bind (get_objects w bucket key pattern) (\<lambda>k.
       io_bind (io_map (get_object_etag w bucket) k) (\<lambda>et.
         io_return (if et \<noteq> [] then EtagList et else EmptyStr)))"

text \<open>\<open>re.compile(source)\<close>.\<close>

definition re_compile :: "world \<Rightarrow> string \<Rightarrow> py_pattern io" where
  "re_compile w source =
     (if re_compiles w source then io_return (PCompiled source) else ([], Inl RegexError))"

definition retrieve_s3uri_etag ::
  "world \<Rightarrow> str_or_list \<Rightarrow> str_or_list \<Rightarrow> py_pattern \<Rightarrow> (string \<times> string) list io" where
  "retrieve_s3uri_etag w bucket key pattern =
     (if \<not> arg_truthy bucket \<or> \<not> arg_truthy key then ([], Inl AssertionError)
      else
        io_bind
          (case pattern of
             PList l \<Rightarrow> re_compile w (join ''|'' l)
           | _ \<Rightarrow> io_return pattern)
          (\<lambda>pattern'.
             let kw = (if pattern_truthy pattern' then pattern' else PNone)
             in io_bind
                  (io_map (\<lambda>(b, k). get_etags_from_s3uri w b k kw)
                     (concat (map (\<lambda>b. map (\<lambda>k. (b, k)) (arg_list key)) (arg_list bucket))))
                  (\<lambda>seqs. io_return (concat (map seq_items seqs)))))"

section \<open>\<open>check_hashes\<close>\<close>

text \<open>\<open>str\<close> of an integer and of the optional chunk size (\<open>None\<close> prints as such).\<close>

definition str_int :: "int \<Rightarrow> string" where
  "str_int c = (if c < 0 then CHR ''-'' # str_nat (nat (- c)) else str_nat (nat c))"

definition py_str :: "int option \<Rightarrow> string" where
  "py_str chunk_size = (case chunk_size of None \<Rightarrow> ''None'' | Some c \<Rightarrow> str_int c)"

text \<open>
  Reading an integer back from text, as \<open>astype(int)\<close> does on an array of strings.
  The texts that reach it here are prefixes of \<open>str\<close> of an integer or of \<open>None\<close>:
  decimal digits with an optional leading minus sign are a number, anything else is a
  \<open>ValueError\<close>.
\<close>

definition digit_val :: "char \<Rightarrow> nat option" where
  "digit_val c =
     (let n = (of_char c :: nat) in if 48 \<le> n \<and> n \<le> 57 then Some (n - 48) else None)"

fun parse_digits :: "nat \<Rightarrow> string \<Rightarrow> nat option" where
  "parse_digits acc [] = Some acc"
| "parse_digits acc (c # cs) =
     (case digit_val c of None \<Rightarrow> None | Some d \<Rightarrow> parse_digits (10 * acc + d) cs)"

definition parse_int :: "string \<Rightarrow> int option" where
  "parse_int s =
     (case s of
        [] \<Rightarrow> None
      | c # r \<Rightarrow>
          if c = CHR ''-''
          then (if r = [] then None else map_option (\<lambda>n. - int n) (parse_digits 0 r))
          else map_option int (parse_digits 0 s))"

text \<open>
  \<open>np.array(hashes)\<close> is an array of fixed-width strings: the width is the length of
  the longest string of the batch, and at least 1. \<open>np.insert\<close> converts the inserted
  values to the array's type, which cuts a longer string to that width. The strings of
  the batch themselves come back from the array as they went in (they hold no NUL
  character, which such an array would drop at the end of a string).
\<close>

definition np_width :: "(string \<times> string) list \<Rightarrow> nat" where
  "np_width hashes = fold max (concat (map (\<lambda>(e, i). [length e, length i]) hashes)) 1"

text \<open>
  The chunk-size column after \<open>cs.astype(int)\<close>: the text of the chunk size, cut to
  the width and read back as a 64-bit integer.
\<close>

definition np_chunk_size :: "nat \<Rightarrow> int option \<Rightarrow> py_error + int" where
  "np_chunk_size width chunk_size =
     (case parse_int (take width (py_str chunk_size)) of
        None \<Rightarrow> Inl ValueError
      | Some c \<Rightarrow> if - (2 ^ 63) \<le> c \<and> c < 2 ^ 63 then Inr c else Inl OverflowError)"

text \<open>
  The \<open>try\<close>/\<open>except ValueError\<close> of the local branch: the argument tuples
  (filename, etag, mode, chunk size) that \<open>map\<close> will pass to \<open>etag_compare\<close>, one per
  entry. An empty batch is not a two-dimensional array: \<open>np.insert\<close> raises
  \<open>AxisError\<close> (a \<open>ValueError\<close>), and raises it again in the handler. A chunk size
  that does not read back as an integer (\<open>None\<close> above all) lands in the handler, which
  maps \<open>etag_compare\<close> without a chunk size, that is with its default.
\<close>

definition local_calls ::
  "(string \<times> string) list \<Rightarrow> string \<Rightarrow> int option
     \<Rightarrow> py_error + (string \<times> string \<times> string \<times> int) list" where
  "local_calls hashes mode chunk_size =
     (if hashes = [] then Inl AxisError
      else
        let width = np_width hashes; m = take width mode
        in case np_chunk_size width chunk_size of
             Inr cs \<Rightarrow> Inr (map (\<lambda>(e, i). (i, e, m, cs)) hashes)
           | Inl ValueError \<Rightarrow> Inr (map (\<lambda>(e, i). (i, e, m, default_chunk_size)) hashes)
           | Inl err \<Rightarrow> Inl err)"

definition tab :: string where
  "tab = [CHR 0x09]"

text \<open>The two lines printed for an entry once its comparison has returned.\<close>

definition local_lines :: "string \<Rightarrow> string \<Rightarrow> string \<Rightarrow> bool \<times> string \<times> string \<Rightarrow> event list" where
  "local_lines mode v el r =
     (case r of (val, a, et) \<Rightarrow>
        [Print (''Comparing '' @ mode @ ''s for '' @ el @ '' ...''),
         Print (if val then join tab [v, el, ''Ok!'']
                else join tab [v, el, ''-->'', a, ''NO MATCH!''])])"

text \<open>
  \<open>for r, v, el in zip(res, e, i)\<close>: \<open>res\<close> is a lazy \<open>map\<close>, so each turn first runs
  \<open>etag_compare\<close> for its entry and then prints; an exception of \<open>etag_compare\<close> leaves
  the loop.
\<close>

fun local_loop :: "world \<Rightarrow> string \<Rightarrow> (string \<times> string \<times> string \<times> int) list \<Rightarrow> unit io" where
  "local_loop w mode [] = io_return ()"
| "local_loop w mode ((i, e, m, cs) # rest) =
     io_bind (etag_compare w i e m cs) (\<lambda>r.
       io_bind (local_lines mode e i r, Inr ()) (\<lambda>_. local_loop w mode rest))"

text \<open>
  The lines of one entry in remote mode. Python iterates over a \<open>set\<close> of the ETags
  found, in an order it does not specify; the model takes them in order of first
  occurrence.
\<close>

definition s3_entry_lines :: "(string \<times> string) list \<Rightarrow> string \<times> string \<Rightarrow> string list" where
  "s3_entry_lines data entry =
     (case entry of (e, i) \<Rightarrow>
        let S3URI_etag = remdups (map fst (filter (\<lambda>(n, m). contains i m) data))
        in if S3URI_etag \<noteq> []
           then map (\<lambda>et. if et = e then join tab [e, i, ''Ok!'']
                          else join tab [e, i, ''-->'', et, ''NO MATCH!'']) S3URI_etag
           else [i @ '' not found!''])"

text \<open>
  The first two statements of the remote branch: a pattern that is missing (or empty) is
  made from the identifiers of the batch, joined by \<open>|\<close>, and the remote ETags are
  fetched once for the whole batch.
\<close>

definition s3_resolve ::
  "world \<Rightarrow> (string \<times> string) list \<Rightarrow> str_or_list \<Rightarrow> str_or_list \<Rightarrow> py_pattern
     \<Rightarrow> (string \<times> string) list io" where
  "s3_resolve w hashes bucket key pattern =
     io_bind
       (if \<not> pattern_truthy pattern then re_compile w (join ''|'' (map snd hashes))
        else io_return pattern)
       (\<lambda>pattern'. retrieve_s3uri_etag w bucket key pattern')"

definition check_hashes ::
  "world \<Rightarrow> (string \<times> string) list \<Rightarrow> string \<Rightarrow> int option
     \<Rightarrow> str_or_list \<Rightarrow> str_or_list \<Rightarrow> py_pattern \<Rightarrow> unit io" where
  "check_hashes w hashes mode chunk_size bucket key pattern =
     (if mode = ''etag'' \<or> mode = ''md5'' then
        (case local_calls hashes mode chunk_size of
           Inl err \<Rightarrow> ([], Inl err)
         | Inr calls \<Rightarrow> local_loop w mode calls)
      else if mode = ''s3uri'' then
        io_bind (s3_resolve w hashes bucket key pattern) (\<lambda>data.
          (map Print (concat (map (s3_entry_lines data) hashes)), Inr ()))
      else ([Print (''Mode '' @ [CHR 0x27] @ mode @ [CHR 0x27] @ '' not recognized!'')], Inr ()))"

text \<open>What a run printed, opened and asked of the storage service.\<close>

fun printed :: "event list \<Rightarrow> string list" where
  "printed [] = []"
| "printed (Print l # t) = l # printed t"
| "printed (_ # t) = printed t"

fun opened :: "event list \<Rightarrow> string list" where
  "opened [] = []"
| "opened (OpenFile f # t) = f # opened t"
| "opened (_ # t) = opened t"

fun is_s3_call :: "event \<Rightarrow> bool" where
  "is_s3_call (S3List b k) = True"
| "is_s3_call (S3Head b k) = True"
| "is_s3_call _ = False"

text \<open>The number of parts of a file: its size over the chunk size, rounded up.\<close>

definition part_count :: "nat \<Rightarrow> nat \<Rightarrow> nat" where
  "part_count len chunk = (len + chunk - 1) div chunk"

text \<open>
  A small world to run the functions in: a file holding the one byte \<open>a\<close>, an empty
  file, a file of three bytes, a file one byte longer than the default chunk size (all
  zeros), and no other path; one bucket, \<open>bkt\<close>, holding no object; every pattern
  compiles and none is found anywhere.
\<close>

definition example_files :: "string \<Rightarrow> file_content option" where
  "example_files path =
     (if path = ''a.txt'' then Some (Abs_file_content [0x61])
      else if path = ''empty.txt'' then Some (Abs_file_content [])
      else if path = ''abc.bin'' then Some (Abs_file_content [1, 2, 3])
      else if path = ''big.bin'' then Some (Abs_file_content (replicate 8388609 0))
      else None)"

definition example_world :: world where
  "example_world =
     \<lparr>files = example_files,
      s3_objects = (\<lambda>b. if b = ''bkt'' then Some [] else None),
      re_compiles = (\<lambda>p. True),
      re_search = (\<lambda>p s. False)\<rparr>"

declare local_loop.simps [simp del]

section \<open>Lemmas\<close>

subsection \<open>Reading in chunks\<close>

lemma file_bytes_limit: "length (file_bytes content) < bytes_limit"
  using file_bytes [of content] by simp

lemma file_bytes_Abs: "length bs < bytes_limit \<Longrightarrow> file_bytes (Abs_file_content bs) = bs"
  by (simp add: Abs_file_content_inverse)


lemma read_chunks_too_large: "int bytes_limit \<le> n \<Longrightarrow> read_chunks n rest = Inl OverflowError"
  by (subst read_chunks.simps) (simp add: fread_def)

lemma read_chunks_zero [simp]: "read_chunks 0 rest = Inr []"
  by (subst read_chunks.simps) (simp add: fread_def bytes_limit_def)

lemma read_chunks_Nil: "- 1 \<le> n \<Longrightarrow> n < int bytes_limit \<Longrightarrow> read_chunks n [] = Inr []"
  by (subst read_chunks.simps) (simp add: fread_def)

lemma read_chunks_all: "rest \<noteq> [] \<Longrightarrow> read_chunks (- 1) rest = Inr [rest]"
  by (subst read_chunks.simps) (simp add: fread_def read_chunks_Nil bytes_limit_def)

lemma read_chunks_pos:
  assumes "0 < n" and "n < int bytes_limit" and "rest \<noteq> []"
  shows "read_chunks n rest =
           (case read_chunks n (drop (nat n) rest) of
              Inl err \<Rightarrow> Inl err
            | Inr chunks \<Rightarrow> Inr (take (nat n) rest # chunks))"
proof -
  from assms have fr: "fread n rest = Inr (take (nat n) rest)"
    by (simp add: fread_def)
  from assms have ne: "take (nat n) rest \<noteq> []" by simp
  have len: "drop (min (length rest) (nat n)) rest = drop (nat n) rest"
    by (simp add: min_def)
  show ?thesis
    by (subst read_chunks.simps) (simp add: fr ne len del: take_eq_Nil)
qed

lemma read_chunks_single:
  assumes "0 < n" and "n < int bytes_limit" and "rest \<noteq> []" and "int (length rest) \<le> n"
  shows "read_chunks n rest = Inr [rest]"
  using assms by (simp add: read_chunks_pos read_chunks_Nil)

lemma read_chunks_concat:
  assumes "0 < n" and "n < int bytes_limit"
  shows "\<exists>chunks. read_chunks n rest = Inr chunks \<and> concat chunks = rest"
proof (induction "length rest" arbitrary: rest rule: less_induct)
  case less
  show ?case
  proof (cases "rest = []")
    case True
    with assms show ?thesis by (simp add: read_chunks_Nil)
  next
    case False
    with assms have "length (drop (nat n) rest) < length rest" by simp
    from less.hyps [OF this] obtain chunks
      where "read_chunks n (drop (nat n) rest) = Inr chunks" "concat chunks = drop (nat n) rest"
      by blast
    with assms False show ?thesis by (simp add: read_chunks_pos)
  qed
qed

lemma foldl_md5_update: "foldl md5_update m cs = m @ concat cs"
  by (induction cs arbitrary: m) (simp_all add: md5_update_def)

lemma ceil_div_Suc: "0 < k \<Longrightarrow> 0 < m \<Longrightarrow> (m + k - 1) div k = Suc ((m - 1) div k)" for k m :: nat
proof -
  assume k: "0 < k" and m: "0 < m"
  from m obtain j where j: "m = Suc j" by (cases m) auto
  have "(m + k - 1) div k = (j + k) div k" by (simp add: j)
  also have "\<dots> = Suc (j div k)" using k div_add_self2 [of k j] by simp
  finally show ?thesis by (simp add: j)
qed

lemma ceil_div_drop: "0 < k \<Longrightarrow> 0 < m \<Longrightarrow> ((m - k) + k - 1) div k = (m - 1) div k" for k m :: nat
  by (cases "k \<le> m") auto

lemma part_count_Nil: "0 < c \<Longrightarrow> part_count 0 c = 0"
  by (simp add: part_count_def)

lemma part_count_step:
  assumes "0 < c" and "0 < s"
  shows "part_count s c = Suc (part_count (s - c) c)"
proof -
  have "part_count s c = Suc ((s - 1) div c)"
    unfolding part_count_def using assms by (rule ceil_div_Suc)
  also have "(s - 1) div c = part_count (s - c) c"
    unfolding part_count_def using assms by (rule ceil_div_drop [symmetric])
  finally show ?thesis .
qed

lemma map_upt_Suc: "map f [0..<Suc p] = f 0 # map (\<lambda>k. f (Suc k)) [0..<p]"
  by (rule nth_equalityI) (auto simp: nth_Cons' simp del: upt_Suc)

text \<open>The chunks of a read with a positive size, in closed form.\<close>

lemma read_chunks_parts:
  assumes "0 < n" and "n < int bytes_limit"
  shows "read_chunks n rest =
           Inr (map (\<lambda>k. take (nat n) (drop (k * nat n) rest))
                  [0..<part_count (length rest) (nat n)])"
proof (induction "length rest" arbitrary: rest rule: less_induct)
  case less
  show ?case
  proof (cases "rest = []")
    case True
    with assms show ?thesis by (simp add: read_chunks_Nil part_count_Nil)
  next
    case False
    with assms have shorter: "length (drop (nat n) rest) < length rest" by simp
    have pc: "part_count (length rest) (nat n) = Suc (part_count (length rest - nat n) (nat n))"
      using assms False by (intro part_count_step) auto
    have "read_chunks n rest =
        Inr (take (nat n) rest #
             map (\<lambda>k. take (nat n) (drop (k * nat n) (drop (nat n) rest)))
               [0..<part_count (length rest - nat n) (nat n)])"
      using less.hyps [OF shorter] assms False by (simp add: read_chunks_pos)
    also have "\<dots> = Inr (map (\<lambda>k. take (nat n) (drop (k * nat n) rest))
          [0..<part_count (length rest) (nat n)])"
      unfolding pc map_upt_Suc by (simp add: add.commute)
    finally show ?thesis .
  qed
qed

subsection \<open>The effect type\<close>

lemma io_bind_Inl [simp]: "io_bind (t, Inl e) f = (t, Inl e)"
  by (simp add: io_bind_def)

lemma io_bind_Inr [simp]: "io_bind (t, Inr x) f = (t @ fst (f x), snd (f x))"
  by (simp add: io_bind_def split: prod.splits)

lemma io_bind_return [simp]: "io_bind (io_return x) f = f x"
  by (simp add: io_return_def)

lemma md5_checksum_eq:
  "md5_checksum w filename =
     ([OpenFile filename],
      case files w filename of
        None \<Rightarrow> Inl IOError
      | Some content \<Rightarrow> Inr (hexdigest (file_bytes content)))"
proof (cases "files w filename")
  case None
  then show ?thesis by (simp add: md5_checksum_def open_rb_def)
next
  case (Some content)
  have "(0::int) < 1024 * 1024" and "(1024 * 1024 :: int) < int bytes_limit"
    by (simp_all add: bytes_limit_def)
  from read_chunks_concat [OF this, of "file_bytes content"]
  obtain chunks where "read_chunks (1024 * 1024) (file_bytes content) = Inr chunks"
    and "concat chunks = file_bytes content"
    by blast
  with Some show ?thesis
    by (simp add: md5_checksum_def open_rb_def io_return_def foldl_md5_update md5_new_def)
qed

lemma etag_checksum_eq:
  "etag_checksum w filename chunk_size =
     ([OpenFile filename],
      case files w filename of
        None \<Rightarrow> Inl IOError
      | Some content \<Rightarrow>
          (case read_chunks chunk_size (file_bytes content) of
             Inl err \<Rightarrow> Inl err
           | Inr chunks \<Rightarrow>
               Inr (if 1 < length chunks
                    then hex (md5 (concat (map md5 chunks))) @ ''-'' @ str_nat (length chunks)
                    else hex (md5 (concat (map md5 chunks))))))"
  by (simp add: etag_checksum_def open_rb_def io_return_def Let_def
        split: option.splits sum.splits)

subsection \<open>Counting the parts\<close>

lemma part_count_bounds:
  assumes "0 < c" and "0 < s"
  shows "(part_count s c - 1) * c < s \<and> s \<le> part_count s c * c"
proof -
  from assms have pc: "part_count s c = Suc ((s - 1) div c)"
    unfolding part_count_def by (rule ceil_div_Suc)
  have "(s - 1) div c * c \<le> s - 1"
    by (rule div_times_less_eq_dividend)
  with assms(2) have "(s - 1) div c * c < s" by linarith
  then have lower: "(part_count s c - 1) * c < s" by (simp add: pc)
  have "s - 1 < (s - 1) div c * c + c"
    using assms(1) by (metis dividend_less_div_times add.commute mult.commute)
  with assms(2) have "s \<le> (s - 1) div c * c + c" by linarith
  then have "s \<le> part_count s c * c" by (simp add: pc)
  with lower show ?thesis by simp
qed

lemma part_count_gt1: "0 < c \<Longrightarrow> c < s \<Longrightarrow> 1 < part_count s c"
proof -
  assume c: "0 < c" and s: "c < s"
  then have "1 \<le> (s - 1) div c"
    by (metis One_nat_def Suc_leI div_greater_zero_iff leD le_less_linear less_Suc_eq_le Suc_pred less_trans)
  moreover from c s have "part_count s c = Suc ((s - 1) div c)"
    unfolding part_count_def by (intro ceil_div_Suc) auto
  ultimately show ?thesis by simp
qed

subsection \<open>Evaluating the decimal conversions\<close>

lemma str_nat_digit: "n < 10 \<Longrightarrow> str_nat n = [digit_char n]"
  by (subst str_nat.simps) simp

lemma str_nat_step: "10 \<le> n \<Longrightarrow> str_nat n = str_nat (n div 10) @ [digit_char (n mod 10)]"
  by (subst str_nat.simps) simp

lemma str_nat_2: "str_nat 2 = ''2''"
  by (simp add: str_nat_digit digit_char_def)

lemma str_default_chunk_size: "str_int 8388608 = ''8388608''"
  by (simp add: str_int_def str_nat_step str_nat_digit digit_char_def)

lemma parse_default_chunk_size: "parse_int ''8388608'' = Some 8388608"
  by (simp add: parse_int_def digit_val_def)

lemma np_chunk_size_None: "np_chunk_size width None = Inl ValueError"
  by (cases width) (simp_all add: np_chunk_size_def py_str_def parse_int_def digit_val_def)

lemma np_chunk_size_default:
  "7 \<le> width \<Longrightarrow> np_chunk_size width (Some (8 * 1024 ^ 2)) = Inr default_chunk_size"
  by (simp add: np_chunk_size_def py_str_def str_default_chunk_size parse_default_chunk_size
        default_chunk_size_def)

subsection \<open>Quotes\<close>

lemma takeWhile_eq_replicate: "takeWhile (\<lambda>c. c = q) xs = replicate (length (takeWhile (\<lambda>c. c = q) xs)) q"
  by (induction xs) auto

lemma strip_quotes_wrapped:
  "strip_quotes (CHR 0x22 # d @ [CHR 0x22]) = strip_quotes d"
proof (cases "\<forall>c \<in> set d. c = CHR 0x22")
  case True
  then have a: "dropWhile (\<lambda>c. c = CHR 0x22) d = []"
    by (induction d) auto
  from True have b: "dropWhile (\<lambda>c. c = CHR 0x22) (d @ [CHR 0x22]) = []"
    by (induction d) auto
  from b have c: "dropWhile (\<lambda>c. c = CHR 0x22) (CHR 0x22 # d @ [CHR 0x22]) = []"
    by simp
  show ?thesis unfolding strip_quotes_def a c by simp
next
  case False
  then have "dropWhile (\<lambda>c. c = CHR 0x22) (d @ [CHR 0x22])
      = dropWhile (\<lambda>c. c = CHR 0x22) d @ [CHR 0x22]"
    by (auto simp: dropWhile_append1)
  then have "dropWhile (\<lambda>c. c = CHR 0x22) (CHR 0x22 # d @ [CHR 0x22])
      = dropWhile (\<lambda>c. c = CHR 0x22) d @ [CHR 0x22]"
    by simp
  then show ?thesis unfolding strip_quotes_def by simp
qed

lemma strip_quotes_decomp:
  "\<exists>k l. d = replicate k (CHR 0x22) @ strip_quotes d @ replicate l (CHR 0x22)"
proof -
  let ?P = "\<lambda>c. c = CHR 0x22"
  let ?r = "dropWhile ?P d"
  have "?r = rev (dropWhile ?P (rev ?r)) @ rev (takeWhile ?P (rev ?r))"
    by (metis rev_append rev_rev_ident takeWhile_dropWhile_id)
  then have r: "?r = strip_quotes d @ rev (takeWhile ?P (rev ?r))"
    unfolding strip_quotes_def .
  have "rev (takeWhile ?P (rev ?r)) = replicate (length (takeWhile ?P (rev ?r))) (CHR 0x22)"
    by (subst takeWhile_eq_replicate) simp
  with r have r': "?r = strip_quotes d @ replicate (length (takeWhile ?P (rev ?r))) (CHR 0x22)"
    by simp
  have "d = takeWhile ?P d @ ?r" by simp
  then have "d = replicate (length (takeWhile ?P d)) (CHR 0x22) @ ?r"
    using takeWhile_eq_replicate [of "CHR 0x22" d] by simp
  with r' show ?thesis by metis
qed

lemma strip_quotes_ends:
  assumes "strip_quotes d \<noteq> []"
  shows "hd (strip_quotes d) \<noteq> CHR 0x22 \<and> last (strip_quotes d) \<noteq> CHR 0x22"
proof -
  define r where "r = dropWhile (\<lambda>c. c = CHR 0x22) d"
  define s where "s = dropWhile (\<lambda>c. c = CHR 0x22) (rev r)"
  have sq: "strip_quotes d = rev s"
    by (simp add: strip_quotes_def s_def r_def)
  with assms have s: "s \<noteq> []" by simp
  have "r = [] \<Longrightarrow> s = []" by (simp add: s_def)
  with s have r: "r \<noteq> []" by blast
  from s have hd_s: "hd s \<noteq> CHR 0x22"
    unfolding s_def by (rule hd_dropWhile)
  from r have hd_r: "hd r \<noteq> CHR 0x22"
    unfolding r_def by (rule hd_dropWhile)
  have "rev r = takeWhile (\<lambda>c. c = CHR 0x22) (rev r) @ s"
    unfolding s_def by (rule takeWhile_dropWhile_id [symmetric])
  then have "last (rev r) = last (takeWhile (\<lambda>c. c = CHR 0x22) (rev r) @ s)"
    by (rule arg_cong)
  also have "\<dots> = last s" using s by (rule last_appendR)
  finally have "last s = last (rev r)" by (rule sym)
  also have "\<dots> = hd r" using r by (simp only: last_rev)
  finally have last_s: "last s = hd r" .
  have "hd (rev s) = last s" using s by (simp only: hd_rev)
  with last_s hd_r have a: "hd (rev s) \<noteq> CHR 0x22" by metis
  have "last (rev s) = hd s" using s by (simp only: last_rev)
  with hd_s have b: "last (rev s) \<noteq> CHR 0x22" by metis
  from a b show ?thesis unfolding sq by (rule conjI)
qed

lemma etag_compare_eq:
  "etag_compare w i e m cs =
     (case (if m = ''etag'' then etag_checksum w i cs
            else if m = ''md5'' then md5_checksum w i
            else ([], Inl UnboundLocalError)) of
        (t, Inl err) \<Rightarrow> (t, Inl err)
      | (t, Inr a) \<Rightarrow> (t, Inr (strip_quotes e = a, a, strip_quotes e)))"
  by (simp add: etag_compare_def io_bind_def io_return_def Let_def split: prod.splits sum.splits)

subsection \<open>A single chunk\<close>

lemma etag_checksum_single:
  assumes "files w filename = Some content" and "file_bytes content \<noteq> []"
    and "chunk_size = - 1
         \<or> (int (length (file_bytes content)) \<le> chunk_size \<and> chunk_size < int bytes_limit)"
  shows "etag_checksum w filename chunk_size
           = ([OpenFile filename], Inr (hexdigest (md5 (file_bytes content))))"
proof -
  have "read_chunks chunk_size (file_bytes content) = Inr [file_bytes content]"
  proof (cases "chunk_size = - 1")
    case True
    with assms(2) show ?thesis by (simp add: read_chunks_all)
  next
    case False
    with assms(3) have le: "int (length (file_bytes content)) \<le> chunk_size"
      and lim: "chunk_size < int bytes_limit" by simp_all
    from assms(2) have "0 < length (file_bytes content)" by simp
    with le have "0 < chunk_size" by linarith
    with le lim assms(2) show ?thesis by (simp add: read_chunks_single)
  qed
  with assms(1) show ?thesis
    by (simp add: etag_checksum_eq hexdigest_def)
qed

subsection \<open>Traces\<close>

lemma printed_append [simp]: "printed (a @ b) = printed a @ printed b"
  by (induction a rule: printed.induct) simp_all

lemma opened_append [simp]: "opened (a @ b) = opened a @ opened b"
  by (induction a rule: opened.induct) simp_all

lemma printed_local_lines [simp]: "length (printed (local_lines mode v el r)) = 2"
  by (simp add: local_lines_def split: prod.splits)

lemma opened_local_lines [simp]: "opened (local_lines mode v el r) = []"
  by (simp add: local_lines_def split: prod.splits)

subsection \<open>Reading the chunk size back\<close>

lemma parse_digits_ge: "parse_digits a s = Some v \<Longrightarrow> a \<le> v"
proof (induction s arbitrary: a)
  case Nil
  then show ?case by simp
next
  case (Cons c s)
  then obtain d where "digit_val c = Some d" and "parse_digits (10 * a + d) s = Some v"
    by (auto split: option.splits)
  from Cons.IH [OF this(2)] show ?case by simp
qed

lemma parse_digits_append:
  "parse_digits a (xs @ ys) =
     (case parse_digits a xs of None \<Rightarrow> None | Some v \<Rightarrow> parse_digits v ys)"
  by (induction xs arbitrary: a) (auto split: option.splits)

lemma parse_digits_prefix:
  assumes "parse_digits a s = Some v"
  shows "\<exists>u. parse_digits a (take n s) = Some u \<and> u \<le> v"
proof -
  from assms have "parse_digits a (take n s @ drop n s) = Some v" by simp
  then obtain u where u: "parse_digits a (take n s) = Some u" and "parse_digits u (drop n s) = Some v"
    unfolding parse_digits_append by (auto split: option.splits)
  from parse_digits_ge [OF this(2)] u show ?thesis by blast
qed

lemma digit_val_digit_char: "n < 10 \<Longrightarrow> digit_val (digit_char n) = Some n"
proof -
  assume "n < 10"
  then consider "n = 0" | "n = 1" | "n = 2" | "n = 3" | "n = 4" | "n = 5" | "n = 6"
    | "n = 7" | "n = 8" | "n = 9"
    by atomize_elim arith
  then show ?thesis
    by cases (simp_all add: digit_val_def digit_char_def)
qed

lemma parse_digits_str_nat: "parse_digits 0 (str_nat n) = Some n"
proof (induction n rule: str_nat.induct)
  case (1 n)
  show ?case
  proof (cases "n < 10")
    case True
    then show ?thesis by (simp add: str_nat_digit digit_val_digit_char)
  next
    case False
    with "1.IH" have "parse_digits 0 (str_nat (n div 10)) = Some (n div 10)" by simp
    with False show ?thesis
      by (simp add: str_nat_step parse_digits_append digit_val_digit_char)
  qed
qed

lemma parse_digits_not_minus: "parse_digits a (c # r) = Some v \<Longrightarrow> c \<noteq> CHR ''-''"
  by (auto simp: digit_val_def split: option.splits)

lemma parse_int_digits:
  assumes "parse_digits 0 t = Some u"
  shows "parse_int t = None \<or> parse_int t = Some (int u)"
proof (cases t)
  case Nil
  then show ?thesis by (simp add: parse_int_def)
next
  case (Cons c r)
  with assms parse_digits_not_minus [of 0 c r u] show ?thesis
    by (simp add: parse_int_def)
qed

lemma np_chunk_size_in_range:
  assumes "- (2 ^ 63) \<le> c" and "c < 2 ^ 63"
  shows "np_chunk_size width (Some c) \<noteq> Inl OverflowError"
proof (cases "c < 0")
  case False
  from parse_digits_prefix [OF parse_digits_str_nat, of width "nat c"]
  obtain u where u: "parse_digits 0 (take width (str_nat (nat c))) = Some u" and le: "u \<le> nat c"
    by blast
  from le assms(2) False have "int u < 2 ^ 63" by linarith
  with parse_int_digits [OF u] False show ?thesis
    by (auto simp: np_chunk_size_def py_str_def str_int_def)
next
  case True
  show ?thesis
  proof (cases width)
    case 0
    then show ?thesis by (simp add: np_chunk_size_def parse_int_def)
  next
    case (Suc k)
    from parse_digits_prefix [OF parse_digits_str_nat, of k "nat (- c)"]
    obtain u where u: "parse_digits 0 (take k (str_nat (nat (- c)))) = Some u"
      and le: "u \<le> nat (- c)"
      by blast
    from le assms(1) True have "- (2 ^ 63) \<le> - int u" by linarith
    with u True Suc show ?thesis
      by (auto simp: np_chunk_size_def py_str_def str_int_def parse_int_def)
  qed
qed

lemma np_width_Nil: "np_width [] = 1"
  by (simp add: np_width_def)

lemma np_chunk_size_range:
  assumes "- 1 \<le> c" and "c < int bytes_limit" and "np_chunk_size width (Some c) = Inr c'"
  shows "- 1 \<le> c' \<and> c' < int bytes_limit"
proof (cases "c < 0")
  case False
  from parse_digits_prefix [OF parse_digits_str_nat, of width "nat c"]
  obtain u where u: "parse_digits 0 (take width (str_nat (nat c))) = Some u" and le: "u \<le> nat c"
    by blast
  from assms(3) False have "parse_int (take width (str_nat (nat c))) = Some c'"
    by (auto simp: np_chunk_size_def py_str_def str_int_def split: option.splits if_splits)
  with parse_int_digits [OF u] have "c' = int u" by simp
  with le assms(2) False show ?thesis by simp
next
  case True
  with assms(1) have c: "c = - 1" by simp
  show ?thesis
  proof (cases width)
    case 0
    with assms(3) show ?thesis by (simp add: np_chunk_size_def parse_int_def)
  next
    case (Suc k)
    from parse_digits_prefix [OF parse_digits_str_nat, of k "Suc 0"]
    obtain u where u: "parse_digits 0 (take k (str_nat (Suc 0))) = Some u" and le: "u \<le> Suc 0"
      by blast
    from assms(3) Suc c u have "c' = - int u"
      by (auto simp: np_chunk_size_def py_str_def str_int_def parse_int_def
            split: option.splits if_splits)
    with le show ?thesis by (simp add: bytes_limit_def)
  qed
qed

subsection \<open>The local branch\<close>

lemma read_chunks_ok:
  assumes "- 1 \<le> n" and "n < int bytes_limit"
  shows "\<exists>chunks. read_chunks n rest = Inr chunks"
proof -
  consider "n = - 1" | "n = 0" | "0 < n" using assms(1) by linarith
  then show ?thesis
  proof cases
    case 1
    then show ?thesis
      by (cases "rest = []") (simp_all add: read_chunks_all read_chunks_Nil bytes_limit_def)
  next
    case 2
    then show ?thesis by simp
  next
    case 3
    with read_chunks_concat [OF 3 assms(2), of rest] show ?thesis by blast
  qed
qed

lemma etag_compare_read_fail:
  assumes "m = ''etag'' \<or> m = ''md5''" and "files w i = None"
  shows "etag_compare w i e m cs = ([OpenFile i], Inl IOError)"
  using assms by (auto simp: etag_compare_eq etag_checksum_eq md5_checksum_eq)

lemma etag_compare_read_ok:
  assumes "m = ''etag'' \<or> m = ''md5''" and "files w i = Some content"
    and "- 1 \<le> cs" and "cs < int bytes_limit"
  shows "\<exists>r. etag_compare w i e m cs = ([OpenFile i], Inr r)"
proof -
  from read_chunks_ok [OF assms(3,4), of "file_bytes content"]
  obtain chunks where "read_chunks cs (file_bytes content) = Inr chunks" by blast
  with assms(1,2) show ?thesis
    by (auto simp: etag_compare_eq etag_checksum_eq md5_checksum_eq)
qed

lemma local_loop_Nil [simp]: "local_loop w mode [] = ([], Inr ())"
  by (simp add: io_return_def local_loop.simps)

lemma local_loop_Cons:
  "local_loop w mode ((i, e, m, cs) # rest) =
     (case etag_compare w i e m cs of
        (t, Inl err) \<Rightarrow> (t, Inl err)
      | (t, Inr r) \<Rightarrow>
          (t @ local_lines mode e i r @ fst (local_loop w mode rest),
           snd (local_loop w mode rest)))"
  by (simp add: local_loop.simps io_bind_def split: prod.splits sum.splits)

lemma local_loop_readable:
  assumes "m = ''etag'' \<or> m = ''md5''"
    and "- 1 \<le> cs" and "cs < int bytes_limit"
    and "\<forall>(e', i') \<in> set pre. files w i' \<noteq> None"
  shows "\<exists>t. opened t = map snd pre \<and> length (printed t) = 2 * length pre
           \<and> local_loop w mode (map (\<lambda>(e, i). (i, e, m, cs)) pre @ rest)
               = (t @ fst (local_loop w mode rest), snd (local_loop w mode rest))"
  using assms(4)
proof (induction pre)
  case Nil
  show ?case by (rule exI [of _ "[]"]) simp
next
  case (Cons p pre)
  obtain e i where p: "p = (e, i)" by (cases p)
  from Cons.prems p obtain content where "files w i = Some content" by auto
  from etag_compare_read_ok [OF assms(1) this assms(2,3)]
  obtain r where r: "etag_compare w i e m cs = ([OpenFile i], Inr r)" by blast
  from Cons.prems have "\<forall>(e', i') \<in> set pre. files w i' \<noteq> None" by simp
  from Cons.IH [OF this] obtain t where t: "opened t = map snd pre"
    "length (printed t) = 2 * length pre"
    "local_loop w mode (map (\<lambda>(e, i). (i, e, m, cs)) pre @ rest)
       = (t @ fst (local_loop w mode rest), snd (local_loop w mode rest))"
    by blast
  let ?t = "[OpenFile i] @ local_lines mode e i r @ t"
  have "opened ?t = map snd (p # pre)" by (simp add: p t)
  moreover have "length (printed ?t) = 2 * length (p # pre)" by (simp add: t)
  moreover have "local_loop w mode (map (\<lambda>(e, i). (i, e, m, cs)) (p # pre) @ rest)
      = (?t @ fst (local_loop w mode rest), snd (local_loop w mode rest))"
    by (simp add: p local_loop_Cons r t)
  ultimately show ?case by blast
qed

lemma local_calls_shape:
  assumes "hashes \<noteq> []"
    and "\<forall>c. chunk_size = Some c \<longrightarrow> - 1 \<le> c \<and> c < int bytes_limit"
  shows "\<exists>cs. - 1 \<le> cs \<and> cs < int bytes_limit
           \<and> local_calls hashes mode chunk_size
               = Inr (map (\<lambda>(e, i). (i, e, take (np_width hashes) mode, cs)) hashes)"
proof (cases chunk_size)
  case None
  have "- 1 \<le> default_chunk_size \<and> default_chunk_size < int bytes_limit"
    by (simp add: default_chunk_size_def bytes_limit_def)
  with None assms(1) show ?thesis
    by (auto simp: local_calls_def np_chunk_size_None Let_def)
next
  case (Some c)
  with assms(2) have c: "- 1 \<le> c" "c < int bytes_limit" by simp_all
  then have "- (2 ^ 63) \<le> c" and "c < 2 ^ 63" by (simp_all add: bytes_limit_def)
  from np_chunk_size_in_range [OF this, of "np_width hashes"]
  have no: "np_chunk_size (np_width hashes) (Some c) \<noteq> Inl OverflowError" .
  show ?thesis
  proof (cases "np_chunk_size (np_width hashes) (Some c)")
    case (Inr c')
    from np_chunk_size_range [OF c Inr] Inr Some assms(1) show ?thesis
      by (auto simp: local_calls_def Let_def)
  next
    case (Inl err)
    with no have "err = ValueError"
      by (auto simp: np_chunk_size_def split: option.splits if_splits)
    moreover have "- 1 \<le> default_chunk_size \<and> default_chunk_size < int bytes_limit"
      by (simp add: default_chunk_size_def bytes_limit_def)
    ultimately show ?thesis using Inl Some assms(1)
      by (auto simp: local_calls_def Let_def)
  qed
qed

subsection \<open>The remote branch\<close>

lemma is_prefix_iff: "is_prefix a b \<longleftrightarrow> (\<exists>q. b = a @ q)"
  by (induction a b rule: is_prefix.induct) auto

lemma contains_iff: "contains sub s \<longleftrightarrow> (\<exists>p q. s = p @ sub @ q)"
proof (induction s)
  case Nil
  show ?case by simp
next
  case (Cons c cs)
  show ?case
  proof
    assume "contains sub (c # cs)"
    then consider "is_prefix sub (c # cs)" | "contains sub cs" by auto
    then show "\<exists>p q. c # cs = p @ sub @ q"
    proof cases
      case 1
      then obtain q where "c # cs = [] @ sub @ q" by (auto simp: is_prefix_iff)
      then show ?thesis by blast
    next
      case 2
      with Cons.IH obtain p q where "cs = p @ sub @ q" by blast
      then have "c # cs = (c # p) @ sub @ q" by simp
      then show ?thesis by blast
    qed
  next
    assume "\<exists>p q. c # cs = p @ sub @ q"
    then obtain p q where pq: "c # cs = p @ sub @ q" by blast
    show "contains sub (c # cs)"
    proof (cases p)
      case Nil
      with pq have "is_prefix sub (c # cs)" by (auto simp: is_prefix_iff)
      then show ?thesis by simp
    next
      case (Cons d p')
      with pq have "cs = p' @ sub @ q" by simp
      with Cons.IH have "contains sub cs" by blast
      then show ?thesis by simp
    qed
  qed
qed

lemma s3_entry_lines_not_found:
  assumes "\<forall>(n, m) \<in> set data. \<not> (\<exists>p q. m = p @ i @ q)"
  shows "s3_entry_lines data (e, i) = [i @ '' not found!'']"
proof -
  have "\<not> contains i m" if "(n, m) \<in> set data" for n m
    using assms that unfolding contains_iff by fast
  then have "filter (\<lambda>(n, m). contains i m) data = []"
    by (auto simp: filter_empty_conv)
  then show ?thesis by (simp add: s3_entry_lines_def)
qed

subsection \<open>Digests of concrete inputs\<close>

text \<open>
  The digests of the empty input and of the byte \<open>a\<close> are test vectors of RFC 1321;
  the third is the digest of the second.
\<close>

lemma blocks_of_Nil: "blocks_of n [] = []"
  by (simp add: blocks_of.simps)

lemma blocks_of_Cons:
  "0 < n \<Longrightarrow> blocks_of n (x # xs) = take n (x # xs) # blocks_of n (drop n (x # xs))"
  by (subst blocks_of.simps) simp

lemma replicate_numeral: "replicate (numeral k) x = x # replicate (pred_numeral k) x"
  by (simp add: numeral_eq_Suc)

lemma md5_rounds_numeral:
  "md5_rounds m i (numeral k) st = md5_rounds m (i + 1) (pred_numeral k) (md5_step m st i)"
  by (simp add: numeral_eq_Suc)

lemmas md5_eval =
  md5_def md5_pad_def le_bytes8_def le_bytes4_def replicate_numeral blocks_of_Nil blocks_of_Cons
  md5_rounds_numeral md5_F_def rotl32_def md5_K_def md5_S_def md5_g_def

lemma md5_empty: "md5 [] = [0xd4, 0x1d, 0x8c, 0xd9, 0x8f, 0x00, 0xb2, 0x04, 0xe9, 0x80, 0x09, 0x98, 0xec, 0xf8, 0x42, 0x7e]"
  by (simp add: md5_eval)

lemma md5_a: "md5 [0x61] = [0x0c, 0xc1, 0x75, 0xb9, 0xc0, 0xf1, 0xb6, 0xa8, 0x31, 0xc3, 0x99, 0xe2, 0x69, 0x77, 0x26, 0x61]"
  by (simp add: md5_eval)

lemma md5_md5_a: "md5 [0x0c, 0xc1, 0x75, 0xb9, 0xc0, 0xf1, 0xb6, 0xa8, 0x31, 0xc3, 0x99, 0xe2, 0x69, 0x77, 0x26, 0x61] = [0xb6, 0xff, 0x9a, 0x06, 0xb7, 0xe2, 0x0b, 0xcb, 0x28, 0x58, 0xc5, 0xb8, 0xff, 0x74, 0x4a, 0xea]"
  by (simp add: md5_eval)

lemma hexdigest_empty: "hexdigest [] = ''d41d8cd98f00b204e9800998ecf8427e''"
  by (simp add: hexdigest_def md5_empty hex_def hex_digit_def)

lemma hexdigest_a: "hexdigest [0x61] = ''0cc175b9c0f1b6a831c399e269772661''"
  by (simp add: hexdigest_def md5_a hex_def hex_digit_def)

lemma hexdigest_md5_a: "hexdigest (md5 [0x61]) = ''b6ff9a06b7e20bcb2858c5b8ff744aea''"
  by (simp add: hexdigest_def md5_a md5_md5_a hex_def hex_digit_def)

subsection \<open>The example world\<close>

lemma length_md5 [simp]: "length (md5 msg) = 16"
  by (simp add: md5_def le_bytes4_def split: prod.splits)

lemma length_hex [simp]: "length (hex bs) = 2 * length bs"
  by (induction bs) (simp_all add: hex_def)

lemma example_path_a: "files example_world ''a.txt'' = Some (Abs_file_content [0x61])"
  by (simp add: example_world_def example_files_def)

lemma example_bytes_a: "file_bytes (Abs_file_content [0x61]) = [0x61]"
  by (simp add: file_bytes_Abs bytes_limit_def)

lemmas example_file_a = example_path_a example_bytes_a

lemma example_path_empty: "files example_world ''empty.txt'' = Some (Abs_file_content [])"
  by (simp add: example_world_def example_files_def)

lemma example_bytes_empty: "file_bytes (Abs_file_content []) = []"
  by (simp add: file_bytes_Abs bytes_limit_def)

lemmas example_file_empty = example_path_empty example_bytes_empty

lemma example_path_abc: "files example_world ''abc.bin'' = Some (Abs_file_content [1, 2, 3])"
  by (simp add: example_world_def example_files_def)

lemma example_bytes_abc: "file_bytes (Abs_file_content [1, 2, 3]) = [1, 2, 3]"
  by (simp add: file_bytes_Abs bytes_limit_def)

lemmas example_file_abc = example_path_abc example_bytes_abc

lemma example_path_big: "files example_world ''big.bin'' = Some (Abs_file_content (replicate 8388609 0))"
  by (simp add: example_world_def example_files_def)

lemma example_bytes_big: "file_bytes (Abs_file_content (replicate 8388609 0)) = replicate 8388609 0"
  by (simp add: file_bytes_Abs bytes_limit_def)

lemmas example_file_big = example_path_big example_bytes_big

lemma example_file_missing: "files example_world ''missing.txt'' = None"
  by (simp add: example_world_def example_files_def)

lemma big_chunks:
  "read_chunks 8388608 (replicate 8388609 0) = Inr [replicate 8388608 0, [0]]"
proof -
  have lim: "(8388608 :: int) < int bytes_limit" by (simp add: bytes_limit_def)
  have "read_chunks 8388608 (replicate 8388609 (0::byte))
      = (case read_chunks 8388608 (drop (nat 8388608) (replicate 8388609 0)) of
           Inl err \<Rightarrow> Inl err
         | Inr chunks \<Rightarrow> Inr (take (nat 8388608) (replicate 8388609 0) # chunks))"
    using lim by (intro read_chunks_pos) simp_all
  moreover have "take (nat 8388608) (replicate 8388609 (0::byte)) = replicate 8388608 0"
    by simp
  moreover have "drop (nat 8388608) (replicate 8388609 (0::byte)) = [0]"
    by simp
  moreover have "read_chunks 8388608 [0::byte] = Inr [[0]]"
    using lim by (intro read_chunks_single) simp_all
  ultimately show ?thesis by simp
qed

lemma np_width_two:
  "np_width [(''d41d8cd98f00b204e9800998ecf8427e'', ''empty.txt''),
             (''0cc175b9c0f1b6a831c399e269772661'', ''missing.txt''),
             (''0cc175b9c0f1b6a831c399e269772661'', ''a.txt'')] = 32"
  by (simp add: np_width_def)

lemma str_nat_Suc_Suc_0: "str_nat (Suc (Suc 0)) = ''2''"
  using str_nat_2 by (simp add: numeral_2_eq_2)

lemma big_digest_differs:
  "''d41d8cd98f00b204e9800998ecf8427e'' \<noteq> hex (md5 x) @ ''-2''"
proof
  assume "''d41d8cd98f00b204e9800998ecf8427e'' = hex (md5 x) @ ''-2''"
  then have "length ''d41d8cd98f00b204e9800998ecf8427e'' = length (hex (md5 x) @ ''-2'')"
    by (rule arg_cong)
  then show False by simp
qed

section \<open>The claims\<close>

text \<open>
  Claim C1 says that a file of at most one chunk gets its whole-file digest. The code
  hashes the list of part hashes also when the list has one element: the file
  \<open>a.txt\<close> (the byte \<open>a\<close>) with the default chunk size gets the hash of its hash, not
  its MD5 digest.
\<close>

theorem single_chunk_digest_example:
  "snd (etag_checksum example_world ''a.txt'' (8 * 1024 ^ 2)) = Inr ''b6ff9a06b7e20bcb2858c5b8ff744aea''
   \<and> snd (md5_checksum example_world ''a.txt'') = Inr ''0cc175b9c0f1b6a831c399e269772661''"
proof -
  have "etag_checksum example_world ''a.txt'' (8 * 1024 ^ 2)
      = ([OpenFile ''a.txt''], Inr (hexdigest (md5 (file_bytes (Abs_file_content [0x61])))))"
    by (rule etag_checksum_single [OF example_path_a]) (simp_all add: example_bytes_a bytes_limit_def)
  then show ?thesis
    by (simp add: md5_checksum_eq example_file_a hexdigest_md5_a hexdigest_a)
qed

text \<open>
  Claim C5. A readable file longer than a positive chunk size is digested in
  \<open>n = part_count size chunk_size\<close> parts, the size over the chunk size rounded up
  (\<open>(n - 1) * chunk_size < size \<le> n * chunk_size\<close>): the result is the hex of the hash
  of the raw part hashes, concatenated in order, followed by \<open>-\<close> and \<open>n\<close> in decimal.
  Part \<open>k\<close> is the \<open>chunk_size\<close> bytes from offset \<open>k * chunk_size\<close> (fewer at the end).
\<close>

theorem etag_checksum_multipart:
  assumes "files w filename = Some content"
    and "0 < chunk_size"
    and "chunk_size < int (length (file_bytes content))"
  shows "snd (etag_checksum w filename chunk_size) =
           Inr (hex (md5 (concat (map (\<lambda>k. md5 (take (nat chunk_size)
                                                   (drop (k * nat chunk_size) (file_bytes content))))
                                   [0..<part_count (length (file_bytes content)) (nat chunk_size)])))
                @ ''-'' @ str_nat (part_count (length (file_bytes content)) (nat chunk_size)))
         \<and> (part_count (length (file_bytes content)) (nat chunk_size) - 1) * nat chunk_size
             < length (file_bytes content)
         \<and> length (file_bytes content)
             \<le> part_count (length (file_bytes content)) (nat chunk_size) * nat chunk_size"
proof -
  let ?c = "file_bytes content"
  let ?n = "part_count (length ?c) (nat chunk_size)"
  from assms(3) file_bytes_limit [of content] have lim: "chunk_size < int bytes_limit"
    by linarith
  have chunks: "read_chunks chunk_size ?c =
      Inr (map (\<lambda>k. take (nat chunk_size) (drop (k * nat chunk_size) ?c)) [0..<?n])"
    using assms(2) lim by (rule read_chunks_parts)
  have many: "1 < ?n"
    using assms(2,3) by (intro part_count_gt1) auto
  have first: "snd (etag_checksum w filename chunk_size) =
           Inr (hex (md5 (concat (map (\<lambda>k. md5 (take (nat chunk_size) (drop (k * nat chunk_size) ?c)))
                                   [0..<?n])))
                @ ''-'' @ str_nat ?n)"
    using assms(1) many by (simp add: etag_checksum_eq chunks comp_def)
  have "0 < length ?c" using assms(2,3) by auto
  with assms(2) have "(?n - 1) * nat chunk_size < length ?c \<and> length ?c \<le> ?n * nat chunk_size"
    by (intro part_count_bounds) auto
  with first show ?thesis by simp
qed

theorem etag_checksum_multipart_witness:
  "snd (etag_checksum example_world ''abc.bin'' 2)
     = Inr (hex (md5 (md5 [1, 2] @ md5 [3])) @ ''-2'')"
proof -
  have pc: "part_count (Suc (Suc (Suc 0))) 2 = 2" by (simp add: part_count_def)
  have "[0..<2] = [0, 1]" by (simp add: upt_rec)
  with etag_checksum_multipart [OF example_path_abc, of 2] pc
  show ?thesis by (simp add: example_bytes_abc str_nat_2)
qed

text \<open>
  Claim C6, as the code has it. For a file of zero bytes, \<open>md5_checksum\<close> returns the
  hash of the empty byte string, the 32 hexadecimal digits
  \<open>d41d8cd98f00b204e9800998ecf8427e\<close>, and so does \<open>etag_checksum\<close>, with no part
  count, for every positive chunk size below the limit of byte strings,
  \<open>2 ^ 63 - 33\<close>. From that size up the first read raises \<open>OverflowError\<close>, and
  \<open>etag_checksum\<close> with it.
\<close>

theorem empty_source_digest:
  assumes "files w filename = Some content" and "file_bytes content = []"
    and "0 < chunk_size"
  shows "snd (md5_checksum w filename) = Inr (hexdigest [])
         \<and> (chunk_size < int bytes_limit \<longrightarrow>
              snd (etag_checksum w filename chunk_size) = Inr (hexdigest []))
         \<and> (int bytes_limit \<le> chunk_size \<longrightarrow>
              etag_checksum w filename chunk_size = ([OpenFile filename], Inl OverflowError))
         \<and> hexdigest [] = ''d41d8cd98f00b204e9800998ecf8427e''"
  using assms
  by (simp add: md5_checksum_eq etag_checksum_eq read_chunks_Nil read_chunks_too_large
        hexdigest_empty [unfolded hexdigest_def] hexdigest_def)

theorem empty_source_digest_witness:
  "snd (md5_checksum example_world ''empty.txt'') = Inr ''d41d8cd98f00b204e9800998ecf8427e''
   \<and> snd (etag_checksum example_world ''empty.txt'' (8 * 1024 ^ 2))
       = Inr ''d41d8cd98f00b204e9800998ecf8427e''"
  using empty_source_digest [OF example_path_empty example_bytes_empty, of "8 * 1024 ^ 2"]
  by (simp add: hexdigest_empty bytes_limit_def)

text \<open>
  Claim C6 as stated fails: with the chunk size \<open>2 ^ 63 - 1\<close> the empty file
  \<open>empty.txt\<close> gets no digest; the call ends with \<open>OverflowError\<close>.
\<close>

theorem etag_checksum_overflow_example:
  "etag_checksum example_world ''empty.txt'' (2 ^ 63 - 1)
     = ([OpenFile ''empty.txt''], Inl OverflowError)"
  by (simp add: etag_checksum_eq example_path_empty read_chunks_too_large bytes_limit_def)




text \<open>
  Claim C7. \<open>etag_compare\<close> compares the digest it computes with \<open>strip_quotes etag\<close>
  and returns the two with the verdict (or the exception of the digest computation).
  \<open>strip_quotes d\<close> is \<open>d\<close> less the double quotes at its two ends, all of them, and
  nothing else: \<open>d\<close> is \<open>strip_quotes d\<close> between two runs of double quotes, and
  \<open>strip_quotes d\<close> neither starts nor ends with one. So wrapping the expected digest
  in a pair of double quotes changes nothing in what \<open>etag_compare\<close> returns,
  whatever the file, the mode and the chunk size.
\<close>

theorem etag_compare_quoted:
  "etag_compare w filename etag mode chunk_size
     = (case (if mode = ''etag'' then etag_checksum w filename chunk_size
              else if mode = ''md5'' then md5_checksum w filename
              else ([], Inl UnboundLocalError)) of
          (t, Inl err) \<Rightarrow> (t, Inl err)
        | (t, Inr a) \<Rightarrow> (t, Inr (strip_quotes etag = a, a, strip_quotes etag)))
   \<and> strip_quotes (CHR 0x22 # d @ [CHR 0x22]) = strip_quotes d
   \<and> etag_compare w filename (CHR 0x22 # d @ [CHR 0x22]) mode chunk_size
       = etag_compare w filename d mode chunk_size
   \<and> (\<exists>k l. d = replicate k (CHR 0x22) @ strip_quotes d @ replicate l (CHR 0x22))
   \<and> (strip_quotes d \<noteq> [] \<longrightarrow>
         hd (strip_quotes d) \<noteq> CHR 0x22 \<and> last (strip_quotes d) \<noteq> CHR 0x22)"
proof -
  have "etag_compare w filename (CHR 0x22 # d @ [CHR 0x22]) mode chunk_size
       = etag_compare w filename d mode chunk_size"
    by (simp add: etag_compare_def strip_quotes_wrapped)
  with etag_compare_eq [of w filename etag mode chunk_size] strip_quotes_wrapped [of d]
    strip_quotes_decomp [of d] strip_quotes_ends [of d]
  show ?thesis by blast
qed

theorem etag_compare_quoted_witness:
  "etag_compare example_world ''a.txt''
       (CHR 0x22 # ''0cc175b9c0f1b6a831c399e269772661'' @ [CHR 0x22]) ''md5'' 8388608
     = ([OpenFile ''a.txt''],
        Inr (True, ''0cc175b9c0f1b6a831c399e269772661'', ''0cc175b9c0f1b6a831c399e269772661''))"
proof -
  note th = etag_compare_quoted [of example_world "''a.txt''" "''0cc175b9c0f1b6a831c399e269772661''"
      "''md5''" 8388608 "''0cc175b9c0f1b6a831c399e269772661''"]
  have s: "strip_quotes ''0cc175b9c0f1b6a831c399e269772661'' = ''0cc175b9c0f1b6a831c399e269772661''"
    by (simp add: strip_quotes_def)
  from th have "etag_compare example_world ''a.txt''
       (CHR 0x22 # ''0cc175b9c0f1b6a831c399e269772661'' @ [CHR 0x22]) ''md5'' 8388608
     = etag_compare example_world ''a.txt'' ''0cc175b9c0f1b6a831c399e269772661'' ''md5'' 8388608"
    by (elim conjE)
  also from th have "\<dots> = ([OpenFile ''a.txt''],
        Inr (True, ''0cc175b9c0f1b6a831c399e269772661'', ''0cc175b9c0f1b6a831c399e269772661''))"
    by (elim conjE) (simp add: md5_checksum_eq example_file_a hexdigest_a s)
  finally show ?thesis .
qed

text \<open>
  Claim C10. Called with a mode that is neither \<open>etag\<close> nor \<open>md5\<close>, \<open>etag_compare\<close>
  opens no file and raises the unbound-local error; it returns no triple.
\<close>

theorem etag_compare_unbound:
  assumes "mode \<noteq> ''etag''" and "mode \<noteq> ''md5''"
  shows "etag_compare w filename etag mode chunk_size = ([], Inl UnboundLocalError)"
  using assms by (simp add: etag_compare_def)

theorem etag_compare_unbound_witness:
  "etag_compare example_world ''a.txt'' ''0cc175b9c0f1b6a831c399e269772661'' ''sha1'' 8388608
     = ([], Inl UnboundLocalError)"
  using etag_compare_unbound [of "''sha1''" example_world "''a.txt''"
      "''0cc175b9c0f1b6a831c399e269772661''" 8388608]
  by simp

text \<open>
  Claim C2, as the code has it. In a local mode \<open>check_hashes\<close> does not catch a read
  failure. Let the entry \<open>(e, i)\<close> be the first of the batch whose file cannot be
  opened, the mode fit the width of the array (some string of the batch is as long as
  the mode's name), and the chunk size, if one is given, be one that \<open>f.read\<close> takes
  (\<open>-1\<close> up to the limit of byte strings). Then the call ends with \<open>IOError\<close>; the
  files opened are those of the entries before it and its own, none after; two lines
  were printed for each entry before it, none for the failing entry or for those that
  follow.
\<close>

theorem check_hashes_read_failure:
  assumes "mode = ''etag'' \<or> mode = ''md5''"
    and "length mode \<le> np_width (pre @ (e, i) # post)"
    and "\<forall>c. chunk_size = Some c \<longrightarrow> - 1 \<le> c \<and> c < int bytes_limit"
    and "files w i = None"
    and "\<forall>(e', i') \<in> set pre. files w i' \<noteq> None"
  shows "snd (check_hashes w (pre @ (e, i) # post) mode chunk_size bucket key pattern) = Inl IOError
         \<and> opened (fst (check_hashes w (pre @ (e, i) # post) mode chunk_size bucket key pattern))
             = map snd pre @ [i]
         \<and> length (printed (fst (check_hashes w (pre @ (e, i) # post) mode chunk_size bucket key pattern)))
             = 2 * length pre"
proof -
  let ?hashes = "pre @ (e, i) # post"
  from assms(2) have m: "take (np_width ?hashes) mode = mode" by simp
  from local_calls_shape [OF _ assms(3), of ?hashes mode] m
  obtain cs where cs: "- 1 \<le> cs" "cs < int bytes_limit"
    and calls: "local_calls ?hashes mode chunk_size
      = Inr (map (\<lambda>(e, i). (i, e, mode, cs)) ?hashes)"
    by auto
  have fail: "local_loop w mode ((i, e, mode, cs) # map (\<lambda>(e, i). (i, e, mode, cs)) post)
      = ([OpenFile i], Inl IOError)"
    using etag_compare_read_fail [OF assms(1,4)]
    by (simp add: local_loop_Cons)
  from local_loop_readable [OF assms(1) cs assms(5), of mode
      "(i, e, mode, cs) # map (\<lambda>(e, i). (i, e, mode, cs)) post"]
  obtain t where t: "opened t = map snd pre" "length (printed t) = 2 * length pre"
    "local_loop w mode (map (\<lambda>(e, i). (i, e, mode, cs)) pre
        @ (i, e, mode, cs) # map (\<lambda>(e, i). (i, e, mode, cs)) post)
      = (t @ [OpenFile i], Inl IOError)"
    by (auto simp: fail)
  have "check_hashes w ?hashes mode chunk_size bucket key pattern = (t @ [OpenFile i], Inl IOError)"
    using assms(1) t(3) by (simp add: check_hashes_def calls)
  with t(1,2) show ?thesis by simp
qed

text \<open>
  A batch of three, the second file missing: the first entry is reported, the run
  ends with \<open>IOError\<close> at the second, and the third file is never opened.
\<close>

theorem check_hashes_read_failure_witness:
  "snd (check_hashes example_world
          [(''d41d8cd98f00b204e9800998ecf8427e'', ''empty.txt''),
           (''0cc175b9c0f1b6a831c399e269772661'', ''missing.txt''),
           (''0cc175b9c0f1b6a831c399e269772661'', ''a.txt'')]
          ''md5'' None NoArg NoArg PNone) = Inl IOError
   \<and> opened (fst (check_hashes example_world
          [(''d41d8cd98f00b204e9800998ecf8427e'', ''empty.txt''),
           (''0cc175b9c0f1b6a831c399e269772661'', ''missing.txt''),
           (''0cc175b9c0f1b6a831c399e269772661'', ''a.txt'')]
          ''md5'' None NoArg NoArg PNone)) = [''empty.txt'', ''missing.txt'']
   \<and> length (printed (fst (check_hashes example_world
          [(''d41d8cd98f00b204e9800998ecf8427e'', ''empty.txt''),
           (''0cc175b9c0f1b6a831c399e269772661'', ''missing.txt''),
           (''0cc175b9c0f1b6a831c399e269772661'', ''a.txt'')]
          ''md5'' None NoArg NoArg PNone))) = 2"
  using check_hashes_read_failure [where mode = "''md5''"
      and pre = "[(''d41d8cd98f00b204e9800998ecf8427e'', ''empty.txt'')]"
      and e = "''0cc175b9c0f1b6a831c399e269772661''" and i = "''missing.txt''"
      and post = "[(''0cc175b9c0f1b6a831c399e269772661'', ''a.txt'')]"
      and chunk_size = None and w = example_world and bucket = NoArg and key = NoArg
      and pattern = PNone]
  by (simp add: np_width_two example_file_missing example_path_empty)

text \<open>
  Claim C2 as stated fails: with the first file of a batch missing, nothing is printed,
  the call ends with \<open>IOError\<close>, and the second entry is never looked at.
\<close>

theorem check_hashes_missing_file_example:
  "check_hashes example_world
       [(''0cc175b9c0f1b6a831c399e269772661'', ''missing.txt''),
        (''d41d8cd98f00b204e9800998ecf8427e'', ''empty.txt'')]
       ''md5'' None NoArg NoArg PNone
     = ([OpenFile ''missing.txt''], Inl IOError)"
  by (simp add: check_hashes_def local_calls_def np_chunk_size_None Let_def np_width_def
        local_loop_Cons etag_compare_eq md5_checksum_eq example_file_missing)

text \<open>
  Claim C3, as the code has it. In a local mode, with no chunk size, \<open>check_hashes\<close>
  does not switch to whole-file digests: it keeps the mode and calls \<open>etag_compare\<close>
  with the default chunk size of 8 MiB for every entry. When some string of the batch
  has 7 characters or more (every MD5 digest has 32), the run is the run with
  \<open>chunk_size = 8 * 1024 ^ 2\<close>, event for event.
\<close>

theorem check_hashes_no_chunk_size:
  assumes "mode = ''etag'' \<or> mode = ''md5''" and "7 \<le> np_width hashes"
  shows "check_hashes w hashes mode None bucket key pattern
           = local_loop w mode (map (\<lambda>(e, i). (i, e, mode, 8 * 1024 ^ 2)) hashes)
         \<and> check_hashes w hashes mode None bucket key pattern
           = check_hashes w hashes mode (Some (8 * 1024 ^ 2)) bucket key pattern"
proof -
  from assms(2) have ne: "hashes \<noteq> []" by (auto simp: np_width_Nil)
  from assms have m: "take (np_width hashes) mode = mode" by auto
  from assms(2) have cs: "np_chunk_size (np_width hashes) (Some 8388608) = Inr 8388608"
    using np_chunk_size_default [of "np_width hashes"] by (simp add: default_chunk_size_def)
  from assms(1) ne m cs show ?thesis
    by (simp add: check_hashes_def local_calls_def np_chunk_size_None Let_def
          default_chunk_size_def)
qed

theorem check_hashes_no_chunk_size_witness:
  "check_hashes example_world [(''0cc175b9c0f1b6a831c399e269772661'', ''a.txt'')]
       ''etag'' None NoArg NoArg PNone
     = check_hashes example_world [(''0cc175b9c0f1b6a831c399e269772661'', ''a.txt'')]
         ''etag'' (Some (8 * 1024 ^ 2)) NoArg NoArg PNone
   \<and> check_hashes example_world [(''0cc175b9c0f1b6a831c399e269772661'', ''a.txt'')]
       ''etag'' None NoArg NoArg PNone
     = local_loop example_world ''etag''
         [(''a.txt'', ''0cc175b9c0f1b6a831c399e269772661'', ''etag'', 8 * 1024 ^ 2)]"
proof -
  have w: "7 \<le> np_width [(''0cc175b9c0f1b6a831c399e269772661'', ''a.txt'')]"
    by (simp add: np_width_def)
  have m: "''etag'' = ''etag'' \<or> ''etag'' = ''md5''" by simp
  note th = check_hashes_no_chunk_size [OF m w, of example_world NoArg NoArg PNone]
  from th have a: "check_hashes example_world [(''0cc175b9c0f1b6a831c399e269772661'', ''a.txt'')]
       ''etag'' None NoArg NoArg PNone
     = local_loop example_world ''etag''
         [(''a.txt'', ''0cc175b9c0f1b6a831c399e269772661'', ''etag'', 8 * 1024 ^ 2)]"
    by (elim conjE) simp
  from th have b: "check_hashes example_world [(''0cc175b9c0f1b6a831c399e269772661'', ''a.txt'')]
       ''etag'' None NoArg NoArg PNone
     = check_hashes example_world [(''0cc175b9c0f1b6a831c399e269772661'', ''a.txt'')]
         ''etag'' (Some (8 * 1024 ^ 2)) NoArg NoArg PNone"
    by (elim conjE) simp
  from b a show ?thesis by (intro conjI)
qed

text \<open>
  Claim C3 as stated fails: in mode \<open>etag\<close> with no chunk size, the file \<open>big.bin\<close>
  (8 MiB and one byte) is digested in two parts of at most 8 MiB, and the digest
  printed ends in \<open>-2\<close>; \<open>md5_checksum\<close> returns the 32 digits of the whole file's hash,
  a different string.
\<close>

theorem check_hashes_no_chunk_size_example:
  "check_hashes example_world [(''d41d8cd98f00b204e9800998ecf8427e'', ''big.bin'')]
       ''etag'' None NoArg NoArg PNone
     = ([OpenFile ''big.bin'',
         Print ''Comparing etags for big.bin ...'',
         Print (join tab [''d41d8cd98f00b204e9800998ecf8427e'', ''big.bin'', ''-->'',
                  hex (md5 (md5 (replicate 8388608 0) @ md5 [0])) @ ''-2'', ''NO MATCH!''])],
        Inr ())
   \<and> md5_checksum example_world ''big.bin''
       = ([OpenFile ''big.bin''], Inr (hex (md5 (replicate 8388609 0))))
   \<and> hex (md5 (md5 (replicate 8388608 0) @ md5 [0])) @ ''-2'' \<noteq> hex (md5 (replicate 8388609 0))"
proof -
  have "hex (md5 (md5 (replicate 8388608 0) @ md5 [0])) @ ''-2'' \<noteq> hex (md5 (replicate 8388609 0))"
  proof
    assume "hex (md5 (md5 (replicate 8388608 0) @ md5 [0])) @ ''-2'' = hex (md5 (replicate 8388609 0))"
    then have "length (hex (md5 (md5 (replicate 8388608 0) @ md5 [0])) @ ''-2'')
        = length (hex (md5 (replicate 8388609 0)))"
      by (rule arg_cong)
    then show False by simp
  qed
  moreover have "md5_checksum example_world ''big.bin''
       = ([OpenFile ''big.bin''], Inr (hex (md5 (replicate 8388609 0))))"
    by (simp add: md5_checksum_eq example_file_big hexdigest_def)
  moreover have "strip_quotes ''d41d8cd98f00b204e9800998ecf8427e''
      = ''d41d8cd98f00b204e9800998ecf8427e''"
    by (simp add: strip_quotes_def)
  then have "etag_compare example_world ''big.bin'' ''d41d8cd98f00b204e9800998ecf8427e'' ''etag''
        default_chunk_size
      = ([OpenFile ''big.bin''],
         Inr (False, hex (md5 (md5 (replicate 8388608 0) @ md5 [0])) @ ''-2'',
              ''d41d8cd98f00b204e9800998ecf8427e''))"
    using big_digest_differs [of "md5 (replicate 8388608 0) @ md5 [0]"]
    by (simp add: etag_compare_eq etag_checksum_eq example_file_big default_chunk_size_def
          big_chunks str_nat_Suc_Suc_0)
  then have "check_hashes example_world [(''d41d8cd98f00b204e9800998ecf8427e'', ''big.bin'')]
       ''etag'' None NoArg NoArg PNone
     = ([OpenFile ''big.bin'',
         Print ''Comparing etags for big.bin ...'',
         Print (join tab [''d41d8cd98f00b204e9800998ecf8427e'', ''big.bin'', ''-->'',
                  hex (md5 (md5 (replicate 8388608 0) @ md5 [0])) @ ''-2'', ''NO MATCH!''])],
        Inr ())"
    by (simp add: check_hashes_def local_calls_def np_chunk_size_None Let_def np_width_def
          local_loop_Cons local_lines_def)
  ultimately show ?thesis by (intro conjI)
qed

text \<open>
  Claim C8. When \<open>get_objects\<close> finds no key, \<open>get_etags_from_s3uri\<close> returns the empty
  string, a sequence with no item, and raises nothing. In mode \<open>s3uri\<close>, once the
  remote ETags have been resolved to \<open>data\<close>, \<open>check_hashes\<close> prints the lines of the
  entries in order, and for an entry whose identifier is part of no key of \<open>data\<close>
  that is the single line \<open><identifier> not found!\<close>.
\<close>

theorem remote_not_found:
  "(snd (get_objects w b k p) = Inr [] \<longrightarrow>
      snd (get_etags_from_s3uri w b k p) = Inr EmptyStr \<and> seq_items EmptyStr = [])
   \<and> (s3_resolve w hashes bucket key pattern = (t, Inr data) \<longrightarrow>
        check_hashes w hashes ''s3uri'' chunk_size bucket key pattern
          = (t @ map Print (concat (map (s3_entry_lines data) hashes)), Inr ())
        \<and> (\<forall>(e, i) \<in> set hashes.
             (\<forall>(n, m) \<in> set data. \<not> (\<exists>p q. m = p @ i @ q)) \<longrightarrow>
             s3_entry_lines data (e, i) = [i @ '' not found!'']))"
proof -
  have a: "snd (get_objects w b k p) = Inr [] \<Longrightarrow>
      snd (get_etags_from_s3uri w b k p) = Inr EmptyStr"
    by (cases "get_objects w b k p") (simp add: get_etags_from_s3uri_def io_return_def)
  have b: "s3_resolve w hashes bucket key pattern = (t, Inr data) \<Longrightarrow>
        check_hashes w hashes ''s3uri'' chunk_size bucket key pattern
          = (t @ map Print (concat (map (s3_entry_lines data) hashes)), Inr ())"
    by (simp add: check_hashes_def)
  from a b show ?thesis
    by (auto simp: s3_entry_lines_not_found)
qed

theorem remote_not_found_witness:
  "snd (get_etags_from_s3uri example_world ''bkt'' ''k'' PNone) = Inr EmptyStr
   \<and> check_hashes example_world [(''0cc175b9c0f1b6a831c399e269772661'', ''a.txt'')] ''s3uri''
        None (Str ''bkt'') (Str ''k'') PNone
      = ([S3List ''bkt'' ''k'', Print ''a.txt not found!''], Inr ())"
proof -
  have objs: "get_objects example_world ''bkt'' ''k'' (PCompiled ''a.txt'')
      = ([S3List ''bkt'' ''k''], Inr [])"
    "get_objects example_world ''bkt'' ''k'' PNone = ([S3List ''bkt'' ''k''], Inr [])"
    by (simp_all add: get_objects_def example_world_def)
  then have res: "s3_resolve example_world [(''0cc175b9c0f1b6a831c399e269772661'', ''a.txt'')]
      (Str ''bkt'') (Str ''k'') PNone = ([S3List ''bkt'' ''k''], Inr [])"
    by (simp add: s3_resolve_def re_compile_def retrieve_s3uri_etag_def get_etags_from_s3uri_def
        io_return_def example_world_def)
  note th = remote_not_found [of example_world "''bkt''" "''k''" PNone
      "[(''0cc175b9c0f1b6a831c399e269772661'', ''a.txt'')]" "Str ''bkt''" "Str ''k''" PNone
      "[S3List ''bkt'' ''k'']" "[]" None]
  from th objs(2) res show ?thesis by simp
qed

text \<open>
  Claim C9. With a mode that is none of \<open>etag\<close>, \<open>md5\<close> and \<open>s3uri\<close>, \<open>check_hashes\<close>
  prints the one line that names the mode, opens no file, sends nothing to the storage
  service, and returns normally.
\<close>

theorem check_hashes_unrecognized:
  assumes "mode \<noteq> ''etag''" and "mode \<noteq> ''md5''" and "mode \<noteq> ''s3uri''"
  shows "check_hashes w hashes mode chunk_size bucket key pattern
           = ([Print (''Mode '' @ [CHR 0x27] @ mode @ [CHR 0x27] @ '' not recognized!'')], Inr ())
         \<and> length (printed (fst (check_hashes w hashes mode chunk_size bucket key pattern))) = 1
         \<and> opened (fst (check_hashes w hashes mode chunk_size bucket key pattern)) = []
         \<and> filter is_s3_call (fst (check_hashes w hashes mode chunk_size bucket key pattern)) = []"
  using assms by (simp add: check_hashes_def)

theorem check_hashes_unrecognized_witness:
  "check_hashes example_world [(''0cc175b9c0f1b6a831c399e269772661'', ''a.txt'')] ''bogus''
       None NoArg NoArg PNone
     = ([Print (''Mode '' @ [CHR 0x27] @ ''bogus'' @ [CHR 0x27] @ '' not recognized!'')], Inr ())"
  using check_hashes_unrecognized [of "''bogus''" example_world
      "[(''0cc175b9c0f1b6a831c399e269772661'', ''a.txt'')]" None NoArg NoArg PNone]
  by simp

end
